theory Spec2Isabelle
  imports Complex_Main
begin

section \<open>Python values and exceptions\<close>

text \<open>
  The module \<open>node2vec/utils.py\<close> works on node ids (Python \<open>int\<close>, here \<open>int\<close>) and
  on weights and probabilities (Python \<open>float\<close>). Floats are modelled as exact reals:
  rounding, infinities and NaN are outside the model, so every statement about weights
  and probabilities below is a statement about the arithmetic the code writes down, not
  about its IEEE rounding.

  An exception is a value of type \<open>error\<close>; a function that can raise returns
  \<open>error + 'a\<close> with \<open>Inl\<close> for the exception. The two \<open>ValueError\<close>s raised in
  \<open>generate_edge_alias_tables\<close> differ in their message, which \<open>msg\<close> keeps apart.
\<close>

datatype msg =
    Invalid_neighbors_tuple
  | Zero_return_or_inout_parameter
  | All_arrays_must_be_of_the_same_length

datatype error =
    ZeroDivisionError
  | ValueError msg
  | IndexError
  | KeyError string
  | TypeError
  | AttributeError string
  | UnpicklingError
  | BinasciiError
  | UnicodeError

section \<open>The alias tables\<close>

text \<open>
  \<open>generate_alias_tables\<close>, first loop: the indices \<open>0..<n\<close> are appended to
  \<open>underfull\<close> or to \<open>overfull\<close>, in increasing order.
\<close>

definition classify :: "real list \<Rightarrow> nat list \<times> nat list \<Rightarrow> nat \<Rightarrow> nat list \<times> nat list" where
  "classify probs uo i =
     (case uo of (underfull, overfull) \<Rightarrow>
        if probs ! i < 1 then (underfull @ [i], overfull) else (underfull, overfull @ [i]))"

text \<open>
  The \<open>while underfull and overfull\<close> loop. \<open>pop()\<close> takes the last element of a list
  and \<open>append\<close> adds one at the end. A subscript out of range raises \<open>IndexError\<close>
  in Python; the indices are never negative here.
\<close>

function alias_loop ::
  "int list \<Rightarrow> real list \<Rightarrow> nat list \<Rightarrow> nat list \<Rightarrow> error + (int list \<times> real list)" where
  "alias_loop alias probs underfull overfull =
     (if underfull \<noteq> [] \<and> overfull \<noteq> [] then
        (let under = last underfull; over = last overfull
         in if length alias \<le> under \<or> length probs \<le> over \<or> length probs \<le> under
            then Inl IndexError
            else
              (let alias' = alias[under := int over];
                   probs' = probs[over := probs ! over + probs ! under - 1]
               in if probs' ! over < 1
                  then alias_loop alias' probs' (butlast underfull @ [over]) (butlast overfull)
                  else alias_loop alias' probs' (butlast underfull) (butlast overfull @ [over])))
      else Inr (alias, probs))"
  by pat_completeness auto
termination
  by (relation "measure (\<lambda>(alias, probs, underfull, overfull). length underfull + length overfull)")
     auto

declare alias_loop.simps [simp del]

text \<open>
  \<open>generate_alias_tables\<close>. Both divisions raise \<open>ZeroDivisionError\<close> on a zero
  divisor: \<open>sum(node_weights) / n\<close> when the list is empty, and \<open>x / avg_weight\<close> (for
  the first \<open>x\<close> of a non-empty list) when the weights sum to zero.
\<close>

definition generate_alias_tables :: "real list \<Rightarrow> error + (int list \<times> real list)" where
  "generate_alias_tables node_weights =
     (let n = length node_weights;
          alias = replicate n (0::int)
      in if n = 0 then Inl ZeroDivisionError
         else
           (let avg_weight = sum_list node_weights / real n
            in if avg_weight = 0 then Inl ZeroDivisionError
               else
                 (let probs = map (\<lambda>x. x / avg_weight) node_weights;
                      uo = foldl (classify probs) ([], []) [0..<n]
                  in alias_loop alias probs (fst uo) (snd uo))))"

text \<open>
  The invariant of the \<open>while\<close> loop, for weights that are not negative: the indices
  still in a worklist are distinct and in range, classified by their current
  probability; an index that has left the worklists holds a probability in \<open>[0, 1]\<close>;
  the excess \<open>probs[i] - 1\<close> summed over the worklists is zero.
\<close>

definition table_inv :: "nat \<Rightarrow> int list \<Rightarrow> real list \<Rightarrow> nat list \<Rightarrow> nat list \<Rightarrow> bool" where
  "table_inv n alias probs us os \<longleftrightarrow>
     length alias = n \<and> length probs = n \<and>
     distinct (us @ os) \<and> set (us @ os) \<subseteq> {..<n} \<and>
     (\<forall>i\<in>set us. probs ! i < 1) \<and> (\<forall>i\<in>set os. 1 \<le> probs ! i) \<and>
     (\<forall>i<n. 0 \<le> probs ! i) \<and>
     (\<forall>i<n. i \<notin> set (us @ os) \<longrightarrow> probs ! i \<le> 1) \<and>
     (\<Sum>i\<in>set (us @ os). probs ! i - 1) = 0 \<and>
     (\<forall>a\<in>set alias. 0 \<le> a \<and> a < int n)"

section \<open>The biased edge weights\<close>

text \<open>
  A neighbors tuple is \<open>Tuple[List[int], List[float]]\<close>: the ids and, in parallel, the
  weights. A pair always has two components, so the test \<open>len(nbs) != 2\<close> of
  \<open>generate_edge_alias_tables\<close> is never true in this model; the test on the two
  lengths is kept.
\<close>

type_synonym neighbors = "int list \<times> real list"

text \<open>
  The body of the loop \<open>for i in range(len(dst_neighbors[0]))\<close>. Both subscripts are in
  range when the loop is reached, since the two lists of \<open>dst_neighbors\<close> have passed
  the length test.
\<close>

definition bias_step ::
  "int \<Rightarrow> int set \<Rightarrow> neighbors \<Rightarrow> real \<Rightarrow> real \<Rightarrow> real list \<Rightarrow> nat \<Rightarrow> real list" where
  "bias_step src_id src_neighbor_ids dst_neighbors return_param inout_param neighbors_dst i =
     (let dst_neighbor_id = fst dst_neighbors ! i;
          weight = snd dst_neighbors ! i;
          unnorm_prob =
            (if dst_neighbor_id = src_id then weight / return_param
             else if dst_neighbor_id \<in> src_neighbor_ids then weight
             else weight / inout_param)
      in neighbors_dst @ [unnorm_prob])"

definition generate_edge_alias_tables ::
  "int \<Rightarrow> neighbors \<Rightarrow> neighbors \<Rightarrow> real \<Rightarrow> real \<Rightarrow> error + (int list \<times> real list)" where
  "generate_edge_alias_tables src_id src_neighbors dst_neighbors return_param inout_param =
     (if length (fst src_neighbors) \<noteq> length (snd src_neighbors)
      then Inl (ValueError Invalid_neighbors_tuple)
      else if length (fst dst_neighbors) \<noteq> length (snd dst_neighbors)
      then Inl (ValueError Invalid_neighbors_tuple)
      else if return_param = 0 \<or> inout_param = 0
      then Inl (ValueError Zero_return_or_inout_parameter)
      else
        (let src_neighbor_ids = set (fst src_neighbors);
             neighbors_dst =
               foldl (bias_step src_id src_neighbor_ids dst_neighbors return_param inout_param)
                 [] [0..<length (fst dst_neighbors)]
         in generate_alias_tables neighbors_dst))"

text \<open>
  The bias rule as the specification words it, on one \<open>(dst_neighbor_id, weight)\<close>
  pair: \<open>weight / p\<close> back to the source, \<open>weight\<close> to a neighbor of the source,
  \<open>weight / q\<close> elsewhere.
\<close>

definition spec_biased_weight :: "int \<Rightarrow> int list \<Rightarrow> real \<Rightarrow> real \<Rightarrow> int \<times> real \<Rightarrow> real" where
  "spec_biased_weight src_id src_ids p q e =
     (if fst e = src_id then snd e / p
      else if fst e \<in> set src_ids then snd e
      else snd e / q)"

section \<open>Drawing from an alias table\<close>

text \<open>
  Python's \<open>random\<close> module keeps one generator for the whole process. Its state is
  passed explicitly here: every function that draws takes the state and returns the
  next one. The module itself is a parameter: \<open>seed_state s\<close> is the state in which
  \<open>random.seed(s)\<close> leaves the generator, \<open>random g\<close> the float that
  \<open>random.random()\<close> returns in state \<open>g\<close>, with the state after the call.
\<close>

record 's random_module =
  seed_state :: "int \<Rightarrow> 's"
  random :: "'s \<Rightarrow> real \<times> 's"

text \<open>\<open>int(x)\<close> on a float truncates towards zero.\<close>

definition py_int :: "real \<Rightarrow> int" where
  "py_int x = (if 0 \<le> x then \<lfloor>x\<rfloor> else \<lceil>x\<rceil>)"

text \<open>
  A subscript \<open>xs[i]\<close> on a list: a negative \<open>i\<close> counts from the end, and an index
  outside \<open>[-len, len)\<close> raises \<open>IndexError\<close>.
\<close>

definition subscript :: "'a list \<Rightarrow> int \<Rightarrow> error + 'a" where
  "subscript xs i =
     (if 0 \<le> i \<and> i < int (length xs) then Inr (xs ! nat i)
      else if - int (length xs) \<le> i \<and> i < 0 then Inr (xs ! nat (int (length xs) + i))
      else Inl IndexError)"

text \<open>
  The data of an \<open>AliasProb\<close> is the pair (alias list, probability list), that of a
  \<open>Neighbors\<close> the pair (ids, weights); the properties read the components.
\<close>

type_synonym alias_prob = "int list \<times> real list"

definition AliasProb_alias :: "alias_prob \<Rightarrow> int list" where
  "AliasProb_alias self = fst self"

definition AliasProb_probs :: "alias_prob \<Rightarrow> real list" where
  "AliasProb_probs self = snd self"

definition dst_id :: "neighbors \<Rightarrow> int list" where
  "dst_id self = fst self"

definition dst_wt :: "neighbors \<Rightarrow> real list" where
  "dst_wt self = snd self"

text \<open>
  \<open>AliasProb.draw_alias\<close>. The comparison \<open>random.random() < self.probs[pick]\<close>
  evaluates its left side first, so the second float is drawn before the subscript
  can raise.
\<close>

definition draw_alias ::
  "'s random_module \<Rightarrow> alias_prob \<Rightarrow> neighbors \<Rightarrow> int option \<Rightarrow> 's \<Rightarrow> (error + int) \<times> 's" where
  "draw_alias rnd self nbs seed g =
     (let g0 = (case seed of None \<Rightarrow> g | Some s \<Rightarrow> seed_state rnd s);
          d1 = random rnd g0;
          pick = py_int (fst d1 * real (length (AliasProb_alias self)));
          d2 = random rnd (snd d1)
      in case subscript (AliasProb_probs self) pick of
           Inl e \<Rightarrow> (Inl e, snd d2)
         | Inr pr \<Rightarrow>
             if fst d2 < pr then (subscript (dst_id nbs) pick, snd d2)
             else
               (case subscript (AliasProb_alias self) pick of
                  Inl e \<Rightarrow> (Inl e, snd d2)
                | Inr a \<Rightarrow> (subscript (dst_id nbs) a, snd d2)))"

section \<open>Extending a path\<close>

text \<open>
  A \<open>RandomPath\<close> holds a reference to a Python list, and \<open>append\<close> builds its result
  by copying and then mutating a list. To tell a copy from the original, the lists
  live in a store: the list objects allocated so far, the address of a list being
  its position. A \<open>RandomPath\<close> object is the address of its \<open>_data\<close>.
\<close>

type_synonym addr = nat
type_synonym store = "int list list"

definition new_list :: "store \<Rightarrow> int list \<Rightarrow> addr \<times> store" where
  "new_list h xs = (length h, h @ [xs])"

text \<open>
  \<open>RandomPath.append\<close>: \<open>list(self._data)\<close> allocates a copy, the first-step branch
  allocates the two-element list, the other branch appends to the copy in place, and
  \<open>RandomPath(path)\<close> keeps the reference it is given. An exception of the draw leaves
  the store as it was.
\<close>

definition RandomPath_append ::
  "'s random_module \<Rightarrow> addr \<Rightarrow> neighbors \<Rightarrow> alias_prob \<Rightarrow> int option \<Rightarrow> store \<Rightarrow> 's
     \<Rightarrow> (error + addr) \<times> store \<times> 's" where
  "RandomPath_append rnd self dst_neighbors alias_prob seed h g =
     (let d = draw_alias rnd alias_prob dst_neighbors seed g
      in case fst d of
           Inl e \<Rightarrow> (Inl e, h, snd d)
         | Inr next_vertex \<Rightarrow>
             (let c = new_list h (h ! self);
                  path = fst c;
                  h1 = snd c
              in if length (h1 ! path) = 2 \<and> (h1 ! path) ! 0 < 0
                 then (let c' = new_list h1 [(h1 ! path) ! 1, next_vertex]
                       in (Inr (fst c'), snd c', snd d))
                 else (Inr path, h1[path := (h1 ! path) @ [next_vertex]], snd d)))"

text \<open>The content of the path that a call of \<open>append\<close> returns, read in the store it leaves.\<close>

definition returned_path :: "(error + addr) \<times> store \<times> 's \<Rightarrow> error + int list" where
  "returned_path r = (case fst r of Inl e \<Rightarrow> Inl e | Inr a \<Rightarrow> Inr (fst (snd r) ! a))"

section \<open>Serialisation and construction\<close>

text \<open>
  \<open>pickle\<close>, \<open>base64\<close> and the conversions between \<open>str\<close> and \<open>bytes\<close> belong to
  Python's standard library, not to this module; they are parameters, and so are the
  types of their values: \<open>'a\<close> is the type of the pickled data, \<open>'bytes\<close> and
  \<open>'str\<close> stand for Python's \<open>bytes\<close> and \<open>str\<close>. What the library promises is
  \<open>codec_ok\<close>: unpickling returns what was pickled, decoding base64 returns what was
  encoded, and the base64 text survives \<open>decode()\<close> followed by \<open>encode()\<close>.
\<close>

record ('a, 'bytes, 'str) codec =
  pickle_dumps :: "'a \<Rightarrow> 'bytes"
  pickle_loads :: "'bytes \<Rightarrow> error + 'a"
  b64encode :: "'bytes \<Rightarrow> 'bytes"
  b64decode :: "'bytes \<Rightarrow> error + 'bytes"
  bytes_decode :: "'bytes \<Rightarrow> error + 'str"
  str_encode :: "'str \<Rightarrow> 'bytes"

definition codec_ok :: "('a, 'bytes, 'str) codec \<Rightarrow> bool" where
  "codec_ok lib \<longleftrightarrow>
     (\<forall>x. pickle_loads lib (pickle_dumps lib x) = Inr x) \<and>
     (\<forall>b. b64decode lib (b64encode lib b) = Inr b) \<and>
     (\<forall>b. \<exists>s. bytes_decode lib (b64encode lib b) = Inr s \<and> str_encode lib s = b64encode lib b)"

text \<open>
  \<open>serialize\<close> is the same expression in the three classes:
  \<open>base64.b64encode(pickle.dumps(self._data)).decode()\<close>; so is the branch of the
  three constructors for a \<open>str\<close>: \<open>pickle.loads(base64.b64decode(obj.encode()))\<close>.
\<close>

definition serialize :: "('a, 'bytes, 'str) codec \<Rightarrow> 'a \<Rightarrow> error + 'str" where
  "serialize lib data = bytes_decode lib (b64encode lib (pickle_dumps lib data))"

definition loads_b64 :: "('a, 'bytes, 'str) codec \<Rightarrow> 'str \<Rightarrow> error + 'a" where
  "loads_b64 lib obj =
     (case b64decode lib (str_encode lib obj) of
        Inl e \<Rightarrow> Inl e
      | Inr b \<Rightarrow> pickle_loads lib b)"

text \<open>
  A pandas \<open>DataFrame\<close>, as far as this module uses it: named columns in order, each a
  list of ints or of floats. Building one from a dict of lists raises \<open>ValueError\<close>
  when the lists differ in length; \<open>frame[name]\<close> raises \<open>KeyError\<close> for a missing
  column; \<open>tolist()\<close> returns the column's values. Where the module expects floats
  an int column yields ints, read as reals here; an id list made of floats has no
  counterpart in \<open>List[int]\<close> and is \<open>TypeError\<close> in this model.
\<close>

datatype column = IntCol "int list" | FloatCol "real list"

type_synonym frame = "(string \<times> column) list"

fun column_length :: "column \<Rightarrow> nat" where
  "column_length (IntCol xs) = length xs"
| "column_length (FloatCol xs) = length xs"

definition DataFrame :: "(string \<times> column) list \<Rightarrow> error + frame" where
  "DataFrame d =
     (case d of
        [] \<Rightarrow> Inr d
      | c # cs \<Rightarrow>
          if list_all (\<lambda>c'. column_length (snd c') = column_length (snd c)) cs
          then Inr d
          else Inl (ValueError All_arrays_must_be_of_the_same_length))"

definition frame_getitem :: "frame \<Rightarrow> string \<Rightarrow> error + column" where
  "frame_getitem f name = (case map_of f name of None \<Rightarrow> Inl (KeyError name) | Some c \<Rightarrow> Inr c)"

fun tolist_int :: "column \<Rightarrow> error + int list" where
  "tolist_int (IntCol xs) = Inr xs"
| "tolist_int (FloatCol xs) = Inl TypeError"

fun tolist_float :: "column \<Rightarrow> error + real list" where
  "tolist_float (FloatCol xs) = Inr xs"
| "tolist_float (IntCol xs) = Inr (map real_of_int xs)"

text \<open>
  The argument of the constructors of \<open>Neighbors\<close> and \<open>AliasProb\<close>:
  \<open>Union[str, pd.DataFrame, Tuple[List[int], List[float]]]\<close>.
\<close>

datatype 'str init_arg = Str 'str | Frame frame | Tuple "int list \<times> real list"

definition two_columns :: "frame \<Rightarrow> string \<Rightarrow> string \<Rightarrow> error + (int list \<times> real list)" where
  "two_columns obj c0 c1 =
     (case frame_getitem obj c0 of
        Inl e \<Rightarrow> Inl e
      | Inr col0 \<Rightarrow>
          (case tolist_int col0 of
             Inl e \<Rightarrow> Inl e
           | Inr l0 \<Rightarrow>
               (case frame_getitem obj c1 of
                  Inl e \<Rightarrow> Inl e
                | Inr col1 \<Rightarrow>
                    (case tolist_float col1 of
                       Inl e \<Rightarrow> Inl e
                     | Inr l1 \<Rightarrow> Inr (l0, l1)))))"

definition Neighbors_init ::
  "(int list \<times> real list, 'bytes, 'str) codec \<Rightarrow> 'str init_arg \<Rightarrow> error + neighbors" where
  "Neighbors_init lib obj =
     (case obj of
        Str s \<Rightarrow> loads_b64 lib s
      | Frame f \<Rightarrow> two_columns f ''dst'' ''weight''
      | Tuple t \<Rightarrow> Inr t)"

definition AliasProb_init ::
  "(int list \<times> real list, 'bytes, 'str) codec \<Rightarrow> 'str init_arg \<Rightarrow> error + alias_prob" where
  "AliasProb_init lib obj =
     (case obj of
        Str s \<Rightarrow> loads_b64 lib s
      | Frame f \<Rightarrow> two_columns f ''alias'' ''probs''
      | Tuple t \<Rightarrow> Inr t)"

text \<open>The argument of the constructor of \<open>RandomPath\<close>: \<open>Union[str, List[int]]\<close>.\<close>

datatype 'str path_arg = PathStr 'str | PathList "int list"

definition RandomPath_init ::
  "(int list, 'bytes, 'str) codec \<Rightarrow> 'str path_arg \<Rightarrow> error + int list" where
  "RandomPath_init lib obj =
     (case obj of
        PathStr s \<Rightarrow> loads_b64 lib s
      | PathList l \<Rightarrow> Inr l)"

text \<open>
  \<open>as_pandas\<close> is a method of \<open>Neighbors\<close> only. Python looks a method up in the
  class of the object and raises \<open>AttributeError\<close> when the class has none of that
  name, which is what \<open>v.as_pandas()\<close> does for an \<open>AliasProb\<close> or a \<open>RandomPath\<close>.
\<close>

datatype object = NeighborsObj neighbors | AliasProbObj alias_prob | RandomPathObj "int list"

fun as_pandas :: "object \<Rightarrow> error + frame" where
  "as_pandas (NeighborsObj d) =
     DataFrame [(''dst'', IntCol (fst d)), (''weight'', FloatCol (snd d))]"
| "as_pandas (AliasProbObj d) = Inl (AttributeError ''as_pandas'')"
| "as_pandas (RandomPathObj d) = Inl (AttributeError ''as_pandas'')"

text \<open>
  The length invariants of the data model: the two lists of a \<open>Neighbors\<close> and of an
  \<open>AliasProb\<close> have one length; a path, started or not, has at least two entries.
\<close>

definition pair_lengths_agree :: "int list \<times> real list \<Rightarrow> bool" where
  "pair_lengths_agree d \<longleftrightarrow> length (fst d) = length (snd d)"

definition path_length_ok :: "int list \<Rightarrow> bool" where
  "path_length_ok p \<longleftrightarrow> 2 \<le> length p"

section \<open>Instances of the library parameters\<close>

text \<open>
  A generator and a codec to run the definitions on: the generator counts its calls
  and returns \<open>1 / (g + 2)\<close> in state \<open>g\<close>; the codec keeps the data as it is.
\<close>

definition example_random :: "nat random_module" where
  "example_random =
     \<lparr> seed_state = (\<lambda>s. nat \<bar>s\<bar>), random = (\<lambda>g. (1 / (real g + 2), Suc g)) \<rparr>"

definition example_codec :: "('a, 'a, 'a) codec" where
  "example_codec =
     \<lparr> pickle_dumps = (\<lambda>x. x), pickle_loads = Inr, b64encode = (\<lambda>b. b), b64decode = Inr,
       bytes_decode = Inr, str_encode = (\<lambda>s. s) \<rparr>"

section \<open>The alias table is well formed\<close>

subsection \<open>The loop keeps its invariant in exact arithmetic\<close>

lemma set_update_bound:
  assumes "\<forall>a\<in>set alias. 0 \<le> a \<and> a < int n" and "o' < n"
  shows "\<forall>a\<in>set (alias[u := int o']). 0 \<le> a \<and> a < int n"
proof
  fix a assume "a \<in> set (alias[u := int o'])"
  then have "a \<in> insert (int o') (set alias)"
    by (rule subsetD [OF set_update_subset_insert])
  with assms show "0 \<le> a \<and> a < int n" by auto
qed

lemma table_inv_step:
  assumes inv: "table_inv n alias probs (us @ [u]) (os @ [o'])"
  defines "q \<equiv> probs ! o' + probs ! u - 1"
  shows "u < n" and "o' < n"
    and "q < 1 \<Longrightarrow> table_inv n (alias[u := int o']) (probs[o' := q]) (us @ [o']) os"
    and "\<not> q < 1 \<Longrightarrow> table_inv n (alias[u := int o']) (probs[o' := q]) us (os @ [o'])"
proof -
  let ?T = "set us \<union> set os"
  let ?p = "probs[o' := q]"
  have sets0: "set ((us @ [u]) @ os @ [o']) = insert u (insert o' ?T)" by auto
  note raw = inv [unfolded table_inv_def sets0]
  from raw have len: "length alias = n" "length probs = n" by simp_all
  from raw have dist: "distinct (us @ [u] @ os @ [o'])" by simp
  from raw have bnd: "u < n" "o' < n" "\<forall>i\<in>?T. i < n" by auto
  from raw have under: "\<forall>i\<in>set us. probs ! i < 1" "probs ! u < 1" by simp_all
  from raw have over: "\<forall>i\<in>set os. 1 \<le> probs ! i" "1 \<le> probs ! o'" by simp_all
  from raw have nonneg: "\<forall>i<n. 0 \<le> probs ! i" by blast
  from raw have settled: "\<forall>i<n. i \<notin> insert u (insert o' ?T) \<longrightarrow> probs ! i \<le> 1" by blast
  from raw have total: "(\<Sum>i\<in>insert u (insert o' ?T). probs ! i - 1) = 0" by blast
  from raw have al: "\<forall>a\<in>set alias. 0 \<le> a \<and> a < int n" by blast
  show "u < n" "o' < n" by fact+
  from dist have fresh: "u \<notin> ?T" "o' \<notin> ?T" "u \<noteq> o'" by auto
  from dist have dist': "distinct (us @ os)" by simp
  have same: "?p ! i = probs ! i" if "i \<noteq> o'" for i
    using that by simp
  have new: "?p ! o' = q" using bnd len by simp
  have "0 \<le> probs ! u" using nonneg bnd(1) by blast
  with over(2) have q0: "0 \<le> q" by (simp add: q_def)
  have "(\<Sum>i\<in>insert u (insert o' ?T). probs ! i - 1)
        = (probs ! u - 1) + ((probs ! o' - 1) + (\<Sum>i\<in>?T. probs ! i - 1))"
    using fresh by simp
  with total have rest: "(\<Sum>i\<in>?T. probs ! i - 1) = 1 - q"
    by (simp add: q_def)
  have "(\<Sum>i\<in>?T. ?p ! i - 1) = (\<Sum>i\<in>?T. probs ! i - 1)"
  proof (rule sum.cong [OF refl])
    fix i assume "i \<in> ?T"
    with fresh have "i \<noteq> o'" by blast
    then show "?p ! i - 1 = probs ! i - 1" by (simp add: same)
  qed
  with rest have "(\<Sum>i\<in>insert o' ?T. ?p ! i - 1) = (q - 1) + (1 - q)"
    using fresh new by simp
  then have total': "(\<Sum>i\<in>insert o' ?T. ?p ! i - 1) = 0" by simp
  have nonneg': "\<forall>i<n. 0 \<le> ?p ! i"
  proof (intro allI impI)
    fix i assume "i < n"
    with nonneg q0 new same [of i] show "0 \<le> ?p ! i" by (cases "i = o'") simp_all
  qed
  have settled': "\<forall>i<n. i \<notin> insert o' ?T \<longrightarrow> ?p ! i \<le> 1"
  proof (intro allI impI)
    fix i assume i: "i < n" "i \<notin> insert o' ?T"
    then have ne: "i \<noteq> o'" by blast
    show "?p ! i \<le> 1"
    proof (cases "i = u")
      case True
      then show ?thesis using under(2) ne by (simp add: same)
    next
      case False
      with i settled have "probs ! i \<le> 1" by blast
      with ne show ?thesis by (simp add: same)
    qed
  qed
  have al': "\<forall>a\<in>set (alias[u := int o']). 0 \<le> a \<and> a < int n"
    using set_update_bound [OF al bnd(2)] .
  have under': "\<forall>i\<in>set us. ?p ! i < 1"
  proof
    fix i assume "i \<in> set us"
    with fresh under(1) have "i \<noteq> o'" "probs ! i < 1" by auto
    then show "?p ! i < 1" by (simp add: same)
  qed
  have over': "\<forall>i\<in>set os. 1 \<le> ?p ! i"
  proof
    fix i assume "i \<in> set os"
    with fresh over(1) have "i \<noteq> o'" "1 \<le> probs ! i" by auto
    then show "1 \<le> ?p ! i" by (simp add: same)
  qed
  have len': "length (alias[u := int o']) = n" "length ?p = n" using len by simp_all
  have sub': "insert o' ?T \<subseteq> {..<n}" using bnd by auto
  have sets: "set ((us @ [o']) @ os) = insert o' ?T" "set (us @ os @ [o']) = insert o' ?T"
    by auto
  show "table_inv n (alias[u := int o']) ?p (us @ [o']) os" if lt: "q < 1"
  proof -
    have d: "distinct ((us @ [o']) @ os)" using dist' fresh by simp
    have u: "\<forall>i\<in>set (us @ [o']). ?p ! i < 1" using under' new lt by simp
    show ?thesis
      unfolding table_inv_def sets
      by (intro conjI) (fact len' d sub' u over' nonneg' settled' total' al')+
  qed
  show "table_inv n (alias[u := int o']) ?p us (os @ [o'])" if ge: "\<not> q < 1"
  proof -
    have d: "distinct (us @ os @ [o'])" using dist' fresh by simp
    have v: "\<forall>i\<in>set (os @ [o']). 1 \<le> ?p ! i" using over' new ge by simp
    show ?thesis
      unfolding table_inv_def sets
      by (intro conjI) (fact len' d sub' under' v nonneg' settled' total' al')+
  qed
qed

lemma table_inv_exit:
  assumes inv: "table_inv n alias probs us os" and stop: "us = [] \<or> os = []"
  shows "\<forall>i<n. probs ! i \<le> 1"
proof (intro allI impI)
  fix i assume i: "i < n"
  note raw = inv [unfolded table_inv_def]
  from raw have under: "\<forall>i\<in>set us. probs ! i < 1" by blast
  from raw have over: "\<forall>i\<in>set os. 1 \<le> probs ! i" by blast
  from raw have settled: "\<forall>i<n. i \<notin> set (us @ os) \<longrightarrow> probs ! i \<le> 1" by blast
  from raw have total: "(\<Sum>i\<in>set (us @ os). probs ! i - 1) = 0" by blast
  from stop show "probs ! i \<le> 1"
  proof
    assume us: "us = []"
    with total have "(\<Sum>i\<in>set os. probs ! i - 1) = 0" by simp
    moreover have "\<forall>i\<in>set os. 0 \<le> probs ! i - 1" using over by simp
    ultimately have "\<forall>i\<in>set os. probs ! i - 1 = 0"
      by (simp add: sum_nonneg_eq_0_iff)
    then have "i \<in> set os \<Longrightarrow> probs ! i \<le> 1" by simp
    moreover have "i \<notin> set os \<Longrightarrow> probs ! i \<le> 1" using settled i us by simp
    ultimately show ?thesis by blast
  next
    assume os: "os = []"
    with total have z: "(\<Sum>i\<in>set us. probs ! i - 1) = 0" by simp
    have "us = []"
    proof (rule ccontr)
      assume "us \<noteq> []"
      then have "set us \<noteq> {}" by simp
      moreover have "\<And>i. i \<in> set us \<Longrightarrow> probs ! i - 1 < 0" using under by simp
      ultimately have "0 < (\<Sum>i\<in>set us. 1 - probs ! i)"
        by (intro sum_pos) simp_all
      moreover have "(\<Sum>i\<in>set us. 1 - probs ! i) = - (\<Sum>i\<in>set us. probs ! i - 1)"
        by (simp add: sum_negf [symmetric])
      ultimately show False using z by simp
    qed
    with settled i os show ?thesis by simp
  qed
qed

lemma alias_loop_inv:
  "table_inv n alias probs us os \<Longrightarrow>
   \<exists>a p. alias_loop alias probs us os = Inr (a, p) \<and> length a = n \<and> length p = n \<and>
         (\<forall>x\<in>set a. 0 \<le> x \<and> x < int n) \<and> (\<forall>i<n. 0 \<le> p ! i \<and> p ! i \<le> 1)"
proof (induction "alias" probs us os rule: alias_loop.induct)
  case (1 als probs underfull overfull)
  show ?case
  proof (cases "underfull \<noteq> [] \<and> overfull \<noteq> []")
    case False
    then have stop: "underfull = [] \<or> overfull = []" by simp
    have "alias_loop als probs underfull overfull = Inr (als, probs)"
      by (subst alias_loop.simps) (simp only: False if_False)
    moreover note table_inv_exit [OF "1.prems" stop]
    moreover from "1.prems" have "length als = n" "length probs = n"
      "\<forall>x\<in>set als. 0 \<le> x \<and> x < int n" "\<forall>i<n. 0 \<le> probs ! i"
      unfolding table_inv_def by blast+
    ultimately show ?thesis by simp
  next
    case True
    then obtain us u os o' where split: "underfull = us @ [u]" "overfull = os @ [o']"
      by (metis rev_exhaust)
    define q where "q = probs ! o' + probs ! u - 1"
    note inv = "1.prems" [unfolded split]
    note step = table_inv_step [OF inv, folded q_def]
    from inv have len: "length als = n" "length probs = n" by (simp_all add: table_inv_def)
    have ok: "\<not> (length als \<le> u \<or> length probs \<le> o' \<or> length probs \<le> u)"
      using step(1,2) len by simp
    have new: "probs[o' := q] ! o' = q" using step(2) len by simp
    have unfold: "alias_loop als probs underfull overfull =
        (if q < 1 then alias_loop (als[u := int o']) (probs[o' := q]) (us @ [o']) os
         else alias_loop (als[u := int o']) (probs[o' := q]) us (os @ [o']))"
      using ok new by (subst alias_loop.simps) (simp add: Let_def q_def split)
    show ?thesis
    proof (cases "q < 1")
      case lt: True
      have "\<exists>a p. alias_loop (als[u := int o']) (probs[o' := q]) (us @ [o']) os = Inr (a, p) \<and>
              length a = n \<and> length p = n \<and>
              (\<forall>x\<in>set a. 0 \<le> x \<and> x < int n) \<and> (\<forall>i<n. 0 \<le> p ! i \<and> p ! i \<le> 1)"
        using "1.IH"(1) [OF True refl refl _ refl refl] ok lt new step(3) [OF lt]
        by (simp add: split q_def)
      then show ?thesis
        using lt by (simp only: unfold if_True)
    next
      case ge: False
      have "\<exists>a p. alias_loop (als[u := int o']) (probs[o' := q]) us (os @ [o']) = Inr (a, p) \<and>
              length a = n \<and> length p = n \<and>
              (\<forall>x\<in>set a. 0 \<le> x \<and> x < int n) \<and> (\<forall>i<n. 0 \<le> p ! i \<and> p ! i \<le> 1)"
        using "1.IH"(2) [OF True refl refl _ refl refl] ok ge new step(4) [OF ge]
        by (simp add: split q_def)
      then show ?thesis
        using ge by (simp only: unfold if_False)
    qed
  qed
qed


lemma foldl_classify:
  "foldl (classify probs) (us, os) xs =
     (us @ filter (\<lambda>i. probs ! i < 1) xs, os @ filter (\<lambda>i. \<not> probs ! i < 1) xs)"
  by (induction xs arbitrary: us os) (simp_all add: classify_def)

lemma sum_list_divide_const:
  fixes ws :: "real list"
  shows "sum_list (map (\<lambda>x. x / c) ws) = sum_list ws / c"
  by (induction ws) (simp_all add: add_divide_distrib)

lemma sum_list_normalised:
  fixes ws :: "real list"
  assumes "sum_list ws \<noteq> 0" and "ws \<noteq> []"
  shows "sum_list (map (\<lambda>x. x / (sum_list ws / real (length ws))) ws) = real (length ws)"
  using assms by (simp only: sum_list_divide_const) simp

lemma table_inv_init:
  fixes ws :: "real list"
  assumes ne: "ws \<noteq> []" and nonneg: "\<forall>w\<in>set ws. 0 \<le> w" and pos: "0 < sum_list ws"
  defines "n \<equiv> length ws"
  defines "probs \<equiv> map (\<lambda>x. x / (sum_list ws / real n)) ws"
  shows "table_inv n (replicate n 0) probs
           (filter (\<lambda>i. probs ! i < 1) [0..<n]) (filter (\<lambda>i. \<not> probs ! i < 1) [0..<n])"
proof -
  let ?us = "filter (\<lambda>i. probs ! i < 1) [0..<n]"
  let ?os = "filter (\<lambda>i. \<not> probs ! i < 1) [0..<n]"
  have n0: "0 < n" using ne by (simp add: n_def)
  have avg: "0 < sum_list ws / real n" using pos n0 by simp
  have lenp: "length probs = n" by (simp add: probs_def n_def)
  have sets: "set (?us @ ?os) = {0..<n}" by auto
  have dist: "distinct (?us @ ?os)" by auto
  have p0: "\<forall>i<n. 0 \<le> probs ! i"
  proof (intro allI impI)
    fix i assume i: "i < n"
    then have w: "0 \<le> ws ! i" using nonneg by (simp add: n_def)
    have "probs ! i = ws ! i / (sum_list ws / real n)"
      using i unfolding probs_def n_def by (rule nth_map)
    with divide_nonneg_pos [OF w avg] show "0 \<le> probs ! i" by (simp only:)
  qed
  have "(\<Sum>i\<in>{0..<n}. probs ! i - 1) = (\<Sum>i\<in>{0..<n}. probs ! i) - real n"
    by (simp add: sum_subtractf)
  also have "(\<Sum>i\<in>{0..<n}. probs ! i) = sum_list probs"
    using lenp by (simp add: sum_list_sum_nth)
  also have "sum_list probs = real n"
    unfolding probs_def n_def using pos ne by (intro sum_list_normalised) simp_all
  finally have total: "(\<Sum>i\<in>{0..<n}. probs ! i - 1) = 0" by simp
  have al: "\<forall>a\<in>set (replicate n (0::int)). 0 \<le> a \<and> a < int n" using n0 by simp
  have lena: "length (replicate n (0::int)) = n" by simp
  have sub: "{0..<n} \<subseteq> {..<n}" by auto
  have under: "\<forall>i\<in>set ?us. probs ! i < 1" by simp
  have over: "\<forall>i\<in>set ?os. 1 \<le> probs ! i" by simp
  have settled: "\<forall>i<n. i \<notin> {0..<n} \<longrightarrow> probs ! i \<le> 1" by simp
  show ?thesis
    unfolding table_inv_def sets
    by (intro conjI) (fact lena lenp dist sub under over p0 settled total al)+
qed

text \<open>
  In exact arithmetic, and for weights none of which is negative, every probability of
  the table lies in \<open>[0, 1]\<close>. This is a property of the algorithm over the reals:
  it rests on the excess summing to exactly zero, which the rounding of doubles does
  not keep, so it says nothing about the floats the code computes with.
\<close>

lemma exact_arithmetic_probs_range:
  assumes "node_weights \<noteq> []" and "\<forall>w\<in>set node_weights. 0 \<le> w"
    and "0 < sum_list node_weights"
  shows "\<exists>alias probs. generate_alias_tables node_weights = Inr (alias, probs) \<and>
           length alias = length node_weights \<and> length probs = length node_weights \<and>
           (\<forall>a\<in>set alias. 0 \<le> a \<and> a < int (length node_weights)) \<and>
           (\<forall>p\<in>set probs. 0 \<le> p \<and> p \<le> 1)"
proof -
  let ?n = "length node_weights"
  let ?probs = "map (\<lambda>x. x / (sum_list node_weights / real ?n)) node_weights"
  have n0: "?n \<noteq> 0" using assms(1) by simp
  have avg: "sum_list node_weights / real ?n \<noteq> 0" using assms(3) n0 by simp
  have "generate_alias_tables node_weights =
      (if ?n = 0 then Inl ZeroDivisionError
       else if sum_list node_weights / real ?n = 0 then Inl ZeroDivisionError
       else alias_loop (replicate ?n 0) ?probs
              (fst (foldl (classify ?probs) ([], []) [0..<?n]))
              (snd (foldl (classify ?probs) ([], []) [0..<?n])))"
    unfolding generate_alias_tables_def Let_def by (rule refl)
  then have run: "generate_alias_tables node_weights =
      alias_loop (replicate ?n 0) ?probs
        (filter (\<lambda>i. ?probs ! i < 1) [0..<?n]) (filter (\<lambda>i. \<not> ?probs ! i < 1) [0..<?n])"
    using n0 avg by (simp only: if_False foldl_classify fst_conv snd_conv append_Nil)
  from alias_loop_inv [OF table_inv_init [OF assms]]
  obtain a p where res: "generate_alias_tables node_weights = Inr (a, p)"
    and len: "length a = ?n" "length p = ?n"
    and al: "\<forall>x\<in>set a. 0 \<le> x \<and> x < int ?n"
    and pr: "\<forall>i<?n. 0 \<le> p ! i \<and> p ! i \<le> 1"
    unfolding run by blast
  from pr len have "\<forall>x\<in>set p. 0 \<le> x \<and> x \<le> 1"
    by (simp add: all_set_conv_all_nth)
  with res len al show ?thesis by simp
qed

subsection \<open>The shape of the table\<close>

lemma alias_loop_shape:
  assumes "length al = n" and "length probs = n"
    and "\<forall>i\<in>set us. i < n" and "\<forall>i\<in>set os. i < n"
    and "\<forall>a\<in>set al. 0 \<le> a \<and> a < int n"
  shows "\<exists>a p. alias_loop al probs us os = Inr (a, p) \<and> length a = n \<and> length p = n \<and>
           (\<forall>x\<in>set a. 0 \<le> x \<and> x < int n)"
  using assms
proof (induction al probs us os rule: alias_loop.induct)
  case (1 al probs underfull overfull)
  show ?case
  proof (cases "underfull \<noteq> [] \<and> overfull \<noteq> []")
    case False
    have "alias_loop al probs underfull overfull = Inr (al, probs)"
      by (subst alias_loop.simps) (simp only: False if_False)
    with "1.prems" show ?thesis by simp
  next
    case True
    let ?u = "last underfull"
    let ?v = "last overfull"
    let ?q = "probs ! ?v + probs ! ?u - 1"
    from True have "?u \<in> set underfull" "?v \<in> set overfull" by simp_all
    with "1.prems" have bnd: "?u < n" "?v < n" by blast+
    with "1.prems" have ok: "\<not> (length al \<le> ?u \<or> length probs \<le> ?v \<or> length probs \<le> ?u)"
      by simp
    have new: "probs[?v := ?q] ! ?v = ?q" using bnd "1.prems"(2) by simp
    have unfold: "alias_loop al probs underfull overfull =
        (if ?q < 1 then alias_loop (al[?u := int ?v]) (probs[?v := ?q]) (butlast underfull @ [?v])
                         (butlast overfull)
         else alias_loop (al[?u := int ?v]) (probs[?v := ?q]) (butlast underfull)
                (butlast overfull @ [?v]))"
      using True ok new
      by (subst alias_loop.simps) (simp add: Let_def)
    have len: "length (al[?u := int ?v]) = n" "length (probs[?v := ?q]) = n"
      using "1.prems" by simp_all
    have al: "\<forall>a\<in>set (al[?u := int ?v]). 0 \<le> a \<and> a < int n"
      using set_update_bound [OF "1.prems"(5) bnd(2)] .
    have bu: "\<forall>i\<in>set (butlast underfull). i < n"
      using "1.prems"(3) by (meson in_set_butlastD)
    have bo: "\<forall>i\<in>set (butlast overfull). i < n"
      using "1.prems"(4) by (meson in_set_butlastD)
    show ?thesis
    proof (cases "?q < 1")
      case lt: True
      with new have lt': "probs[?v := ?q] ! ?v < 1" by simp
      have "\<forall>i\<in>set (butlast underfull @ [?v]). i < n" using bu bnd by simp
      from "1.IH"(1) [OF True refl refl ok refl refl lt' len this bo al] lt
      show ?thesis by (simp only: unfold if_True)
    next
      case ge: False
      with new have ge': "\<not> probs[?v := ?q] ! ?v < 1" by simp
      have "\<forall>i\<in>set (butlast overfull @ [?v]). i < n" using bo bnd by simp
      from "1.IH"(2) [OF True refl refl ok refl refl ge' len bu this al] ge
      show ?thesis by (simp only: unfold if_False)
    qed
  qed
qed

lemma generate_alias_tables_returns:
  assumes "node_weights \<noteq> []"
    and "sum_list node_weights / real (length node_weights) \<noteq> 0"
  shows "\<exists>alias probs. generate_alias_tables node_weights = Inr (alias, probs) \<and>
           length alias = length node_weights \<and> length probs = length node_weights \<and>
           (\<forall>a\<in>set alias. 0 \<le> a \<and> a < int (length node_weights))"
proof -
  let ?n = "length node_weights"
  let ?probs = "map (\<lambda>x. x / (sum_list node_weights / real ?n)) node_weights"
  have n0: "?n \<noteq> 0" using assms(1) by simp
  have "generate_alias_tables node_weights =
      (if ?n = 0 then Inl ZeroDivisionError
       else if sum_list node_weights / real ?n = 0 then Inl ZeroDivisionError
       else alias_loop (replicate ?n 0) ?probs
              (fst (foldl (classify ?probs) ([], []) [0..<?n]))
              (snd (foldl (classify ?probs) ([], []) [0..<?n])))"
    unfolding generate_alias_tables_def Let_def by (rule refl)
  then have run: "generate_alias_tables node_weights =
      alias_loop (replicate ?n 0) ?probs
        (filter (\<lambda>i. ?probs ! i < 1) [0..<?n]) (filter (\<lambda>i. \<not> ?probs ! i < 1) [0..<?n])"
    using n0 assms(2) by (simp only: if_False foldl_classify fst_conv snd_conv append_Nil)
  have "length (replicate ?n (0::int)) = ?n" "length ?probs = ?n"
    "\<forall>i\<in>set (filter (\<lambda>i. ?probs ! i < 1) [0..<?n]). i < ?n"
    "\<forall>i\<in>set (filter (\<lambda>i. \<not> ?probs ! i < 1) [0..<?n]). i < ?n"
    "\<forall>a\<in>set (replicate ?n (0::int)). 0 \<le> a \<and> a < int ?n"
    using n0 by simp_all
  from alias_loop_shape [OF this] show ?thesis unfolding run .
qed

text \<open>
  C1, as the code has it: for every list of weights, \<open>generate_alias_tables\<close> either
  raises \<open>ZeroDivisionError\<close> (the list is empty or the average weight it computes is
  zero) or returns a pair \<open>(alias, probs)\<close> of two lists as long as the input, with
  every alias in \<open>[0, n)\<close>. Neither the loop nor the shape of its result depends on
  the values of the weights or on how they are rounded. The entries of \<open>probs\<close> are
  not bounded.
\<close>

theorem generate_alias_tables_shape:
  "generate_alias_tables node_weights = Inl ZeroDivisionError \<or>
   (\<exists>alias probs. generate_alias_tables node_weights = Inr (alias, probs) \<and>
      length alias = length node_weights \<and> length probs = length node_weights \<and>
      (\<forall>a\<in>set alias. 0 \<le> a \<and> a < int (length node_weights)))"
proof (cases "node_weights = [] \<or> sum_list node_weights / real (length node_weights) = 0")
  case True
  then have "generate_alias_tables node_weights = Inl ZeroDivisionError"
    by (auto simp: generate_alias_tables_def Let_def)
  then show ?thesis by (rule disjI1)
next
  case False
  then have "node_weights \<noteq> []" "sum_list node_weights / real (length node_weights) \<noteq> 0"
    by blast+
  from generate_alias_tables_returns [OF this] show ?thesis by (rule disjI2)
qed

theorem generate_alias_tables_shape_witness:
  "generate_alias_tables [1, 2, 3, 4, 0] = Inr ([3, 0, 0, 2, 3], [1 / 2, 1, 1, 1 / 2, 0]) \<and>
   length [3, 0, 0, 2, 3 :: int] = length [1, 2, 3, 4, 0 :: real] \<and>
   length [1 / 2, 1, 1, 1 / 2, 0 :: real] = length [1, 2, 3, 4, 0 :: real] \<and>
   list_all (\<lambda>a. 0 \<le> a \<and> a < int (length [1, 2, 3, 4, 0 :: real])) [3, 0, 0, 2, 3]"
  using generate_alias_tables_shape [of "[1, 2, 3, 4, 0]"]
  by (simp add: generate_alias_tables_def classify_def alias_loop.simps)

text \<open>
  The claim as stated also puts every probability in \<open>[0, 1]\<close>, for every non-empty
  list of positive sum. That fails: the weights \<open>-1\<close> and \<open>3\<close> have the sum \<open>2\<close>,
  and the table returned for them holds the probability \<open>-1\<close>.
\<close>

theorem generate_alias_tables_negative_weight:
  "[- 1, 3 :: real] \<noteq> [] \<and> 0 < sum_list [- 1, 3 :: real] \<and>
   generate_alias_tables [- 1, 3] = Inr ([1, 0], [- 1, 1]) \<and> (- 1 :: real) < 0"
  by (simp add: generate_alias_tables_def classify_def alias_loop.simps)

section \<open>Empty input\<close>

text \<open>
  C6: \<open>generate_alias_tables\<close> on the empty weight list raises (the division
  \<open>sum(node_weights) / n\<close> is by zero) and returns no table. The exception Python
  raises there is \<open>ZeroDivisionError\<close>.
\<close>

theorem generate_alias_tables_empty:
  "generate_alias_tables [] = Inl ZeroDivisionError"
  by (simp add: generate_alias_tables_def)

section \<open>The edge bias\<close>

subsection \<open>The loop computes the biased weights in order\<close>

lemma foldl_bias_step:
  "foldl (bias_step src_id ids dst p q) acc xs =
     acc @ map (\<lambda>i. spec_biased_weight src_id src_ids p q (fst dst ! i, snd dst ! i)) xs"
  if "ids = set src_ids"
  using that
  by (induction xs arbitrary: acc) (simp_all add: bias_step_def spec_biased_weight_def Let_def)

lemma map_index_zip:
  assumes "length xs = length ys"
  shows "map (\<lambda>i. f (xs ! i, ys ! i)) [0..<length xs] = map f (zip xs ys)"
  using assms by (intro nth_equalityI) simp_all

lemma biased_weights_eq:
  assumes "length (fst dst) = length (snd dst)"
  shows "foldl (bias_step src_id (set src_ids) dst p q) [] [0..<length (fst dst)] =
         map (spec_biased_weight src_id src_ids p q) (zip (fst dst) (snd dst))"
  using map_index_zip [OF assms, of "spec_biased_weight src_id src_ids p q"]
  by (simp add: foldl_bias_step [OF refl])

lemma spec_biased_weight_one: "spec_biased_weight src_id src_ids 1 1 e = snd e"
  by (simp add: spec_biased_weight_def)

text \<open>
  C2: on valid input (each neighbors tuple has two lists of one length, \<open>p\<close> and
  \<open>q\<close> are not zero) \<open>generate_edge_alias_tables\<close> returns what
  \<open>generate_alias_tables\<close> returns on the biased weights, which are, for the pairs
  \<open>(dst_neighbor_id, weight)\<close> of \<open>dst_neighbors\<close> in order: \<open>weight / p\<close> when the
  id is \<open>src_id\<close>, \<open>weight\<close> when the id is among the ids of \<open>src_neighbors\<close>,
  \<open>weight / q\<close> otherwise.
\<close>

theorem generate_edge_alias_tables_bias:
  assumes "length (fst src_neighbors) = length (snd src_neighbors)"
    and "length (fst dst_neighbors) = length (snd dst_neighbors)"
    and "p \<noteq> 0" and "q \<noteq> 0"
  shows "generate_edge_alias_tables src_id src_neighbors dst_neighbors p q =
         generate_alias_tables
           (map (spec_biased_weight src_id (fst src_neighbors) p q)
              (zip (fst dst_neighbors) (snd dst_neighbors)))"
  unfolding generate_edge_alias_tables_def Let_def biased_weights_eq [OF assms(2)]
  using assms by simp

theorem generate_edge_alias_tables_bias_witness:
  "length (fst ([2, 3 :: int], [1, 1 :: real])) = length (snd ([2, 3 :: int], [1, 1 :: real])) \<and>
   length (fst ([1, 2, 4 :: int], [1, 2, 3 :: real])) = length (snd ([1, 2, 4 :: int], [1, 2, 3 :: real])) \<and>
   (2 :: real) \<noteq> 0 \<and> (4 :: real) \<noteq> 0 \<and>
   generate_edge_alias_tables 1 ([2, 3], [1, 1]) ([1, 2, 4], [1, 2, 3]) 2 4 =
     generate_alias_tables [1 / 2, 2, 3 / 4]"
  using generate_edge_alias_tables_bias [of "([2, 3], [1, 1])" "([1, 2, 4], [1, 2, 3])" 2 4 1]
  by (simp add: spec_biased_weight_def)

text \<open>
  C5: with \<open>p = q = 1\<close> and well-formed neighbors,
  \<open>generate_edge_alias_tables\<close> returns the table that \<open>generate_alias_tables\<close>
  returns on the weights of \<open>dst_neighbors\<close>.
\<close>

theorem generate_edge_alias_tables_unbiased:
  assumes "length (fst src_neighbors) = length (snd src_neighbors)"
    and "length (fst dst_neighbors) = length (snd dst_neighbors)"
  shows "generate_edge_alias_tables src_id src_neighbors dst_neighbors 1 1 =
         generate_alias_tables (snd dst_neighbors)"
proof -
  have "map (spec_biased_weight src_id (fst src_neighbors) 1 1)
          (zip (fst dst_neighbors) (snd dst_neighbors)) = snd dst_neighbors"
    using assms(2) by (simp add: spec_biased_weight_one [abs_def] map_snd_zip)
  then show ?thesis
    unfolding generate_edge_alias_tables_def Let_def biased_weights_eq [OF assms(2)]
    using assms by simp
qed

theorem generate_edge_alias_tables_unbiased_witness:
  "length (fst ([2, 3 :: int], [1, 1 :: real])) = length (snd ([2, 3 :: int], [1, 1 :: real])) \<and>
   length (fst ([1, 2, 4 :: int], [1, 2, 3 :: real])) = length (snd ([1, 2, 4 :: int], [1, 2, 3 :: real])) \<and>
   generate_edge_alias_tables 1 ([2, 3], [1, 1]) ([1, 2, 4], [1, 2, 3]) 1 1 =
     generate_alias_tables [1, 2, 3]"
  using generate_edge_alias_tables_unbiased [of "([2, 3], [1, 1])" "([1, 2, 4], [1, 2, 3])" 1]
  by simp

section \<open>The exceptions of the edge bias\<close>

lemma alias_loop_error:
  "alias_loop al probs us os = Inl e \<Longrightarrow> e = IndexError"
proof (induction al probs us os rule: alias_loop.induct)
  case (1 al probs underfull overfull)
  show ?case
  proof (cases "underfull \<noteq> [] \<and> overfull \<noteq> []")
    case False
    with "1.prems" show ?thesis
      by (simp add: alias_loop.simps [of al probs underfull overfull])
  next
    case True
    with "1.prems" "1.IH" show ?thesis
      by (simp add: alias_loop.simps [of al probs underfull overfull] Let_def split: if_splits)
  qed
qed

lemma generate_alias_tables_error:
  "generate_alias_tables ws = Inl e \<Longrightarrow> e = ZeroDivisionError \<or> e = IndexError"
  by (auto simp: generate_alias_tables_def Let_def split: if_splits dest: alias_loop_error)

text \<open>
  C7: \<open>generate_edge_alias_tables\<close> raises the \<open>ValueError\<close> of an invalid
  neighbors tuple exactly when the two lists of \<open>src_neighbors\<close> or of
  \<open>dst_neighbors\<close> differ in length; when both are well formed it raises the
  \<open>ValueError\<close> of a zero parameter exactly when \<open>p = 0\<close> or \<open>q = 0\<close>; in both
  cases it returns no table.
\<close>

theorem generate_edge_alias_tables_errors:
  "(generate_edge_alias_tables src_id src_neighbors dst_neighbors p q
      = Inl (ValueError Invalid_neighbors_tuple) \<longleftrightarrow>
    length (fst src_neighbors) \<noteq> length (snd src_neighbors) \<or>
    length (fst dst_neighbors) \<noteq> length (snd dst_neighbors)) \<and>
   (length (fst src_neighbors) = length (snd src_neighbors) \<and>
    length (fst dst_neighbors) = length (snd dst_neighbors) \<longrightarrow>
      (generate_edge_alias_tables src_id src_neighbors dst_neighbors p q
         = Inl (ValueError Zero_return_or_inout_parameter) \<longleftrightarrow> p = 0 \<or> q = 0)) \<and>
   (length (fst src_neighbors) \<noteq> length (snd src_neighbors) \<or>
    length (fst dst_neighbors) \<noteq> length (snd dst_neighbors) \<or> p = 0 \<or> q = 0 \<longrightarrow>
      (\<forall>t. generate_edge_alias_tables src_id src_neighbors dst_neighbors p q \<noteq> Inr t))"
proof -
  have no_value_error:
    "generate_alias_tables ws \<noteq> Inl (ValueError m)" for ws m
    using generate_alias_tables_error [of ws "ValueError m"] by auto
  show ?thesis
    by (auto simp: generate_edge_alias_tables_def Let_def no_value_error)
qed


theorem generate_edge_alias_tables_errors_witness:
  "length (fst ([2 :: int], [1 :: real])) = length (snd ([2 :: int], [1 :: real])) \<and>
   length (fst ([1 :: int], [1 :: real])) = length (snd ([1 :: int], [1 :: real])) \<and>
   generate_edge_alias_tables 1 ([2], [1]) ([1], [1]) 0 1
     = Inl (ValueError Zero_return_or_inout_parameter) \<and>
   (\<forall>t. generate_edge_alias_tables 1 ([2], [1]) ([1], [1]) 0 1 \<noteq> Inr t)"
  using generate_edge_alias_tables_errors [of 1 "([2], [1])" "([1], [1])" 0 1] by simp

section \<open>Drawing stays in range\<close>

lemma py_int_unit:
  assumes "0 \<le> r" and "r < 1" and "1 \<le> n"
  shows "0 \<le> py_int (r * real n)" and "py_int (r * real n) < int n"
proof -
  have nn: "0 \<le> r * real n" using assms by simp
  then show "0 \<le> py_int (r * real n)" by (simp add: py_int_def)
  have "r * real n < 1 * real n" using assms by (intro mult_strict_right_mono) simp_all
  then have "r * real n < real_of_int (int n)" by simp
  then have "\<lfloor>r * real n\<rfloor> < int n" by (simp only: floor_less_iff)
  with nn show "py_int (r * real n) < int n" by (simp add: py_int_def)
qed

lemma subscript_in_range:
  "0 \<le> i \<Longrightarrow> i < int (length xs) \<Longrightarrow> subscript xs i = Inr (xs ! nat i)"
  by (simp add: subscript_def)

text \<open>
  C8: let the alias list, the probability list and the id list of the neighbors have
  one length \<open>n \<ge> 1\<close>, every alias in \<open>[0, n)\<close>, and let the first float drawn be in
  \<open>[0, 1)\<close>, as \<open>random.random()\<close> promises. Then \<open>draw_alias\<close> picks the index
  \<open>k = int(r1 * n)\<close> in \<open>[0, n)\<close>, returns \<open>dst_id[k]\<close> when the second float
  \<open>r2\<close> is below \<open>probs[k]\<close> and \<open>dst_id[alias[k]]\<close> otherwise, raises no
  \<open>IndexError\<close>, and its result is an element of the id list.
\<close>

theorem draw_alias_in_range:
  fixes rnd :: "'s random_module"
  assumes lens: "length (AliasProb_alias self) = n" "length (AliasProb_probs self) = n"
      "length (dst_id nbs) = n" "1 \<le> n"
    and al: "\<forall>a\<in>set (AliasProb_alias self). 0 \<le> a \<and> a < int n"
    and d1: "random rnd (case seed of None \<Rightarrow> g | Some s \<Rightarrow> seed_state rnd s) = (r1, g1)"
    and d2: "random rnd g1 = (r2, g2)"
    and unit: "0 \<le> r1" "r1 < 1"
  shows "\<exists>k<n. int k = py_int (r1 * real n) \<and>
           draw_alias rnd self nbs seed g =
             (Inr (if r2 < AliasProb_probs self ! k then dst_id nbs ! k
                   else dst_id nbs ! nat (AliasProb_alias self ! k)), g2) \<and>
           (\<exists>v. fst (draw_alias rnd self nbs seed g) = Inr v \<and> v \<in> set (dst_id nbs))"
proof -
  define pick where "pick = py_int (r1 * real n)"
  define k where "k = nat pick"
  have pick: "0 \<le> pick" "pick < int n"
    using py_int_unit [OF unit lens(4)] by (simp_all add: pick_def)
  then have k: "k < n" "int k = pick" by (simp_all add: k_def)
  let ?a = "AliasProb_alias self ! k"
  have "?a \<in> set (AliasProb_alias self)" using k lens by simp
  with al have a: "0 \<le> ?a" "?a < int n" by blast+
  have s1: "subscript (AliasProb_probs self) pick = Inr (AliasProb_probs self ! k)"
    using pick lens by (simp add: subscript_in_range k_def)
  have s2: "subscript (dst_id nbs) pick = Inr (dst_id nbs ! k)"
    using pick lens by (simp add: subscript_in_range k_def)
  have s3: "subscript (AliasProb_alias self) pick = Inr ?a"
    using pick lens by (simp add: subscript_in_range k_def)
  have s4: "subscript (dst_id nbs) ?a = Inr (dst_id nbs ! nat ?a)"
    using a lens by (simp add: subscript_in_range)
  have run: "draw_alias rnd self nbs seed g =
      (Inr (if r2 < AliasProb_probs self ! k then dst_id nbs ! k
            else dst_id nbs ! nat ?a), g2)"
    by (simp add: draw_alias_def Let_def d1 d2 lens(1) pick_def [symmetric] s1 s2 s3 s4)
  have "dst_id nbs ! k \<in> set (dst_id nbs)" using k lens by simp
  moreover have "dst_id nbs ! nat ?a \<in> set (dst_id nbs)" using a lens by simp
  ultimately have "\<exists>v. fst (draw_alias rnd self nbs seed g) = Inr v \<and> v \<in> set (dst_id nbs)"
    by (simp add: run)
  with k run show ?thesis unfolding pick_def by blast
qed

theorem draw_alias_in_range_witness:
  "length (AliasProb_alias ([1, 0], [1 / 2, 1])) = 2 \<and>
   length (AliasProb_probs ([1, 0], [1 / 2, 1])) = 2 \<and>
   length (dst_id ([10, 20], [1, 3])) = 2 \<and> (1::nat) \<le> 2 \<and>
   list_all (\<lambda>a. 0 \<le> a \<and> a < int 2) (AliasProb_alias ([1, 0], [1 / 2, 1])) \<and>
   random example_random 0 = (1 / 2, 1) \<and> random example_random 1 = (1 / 3, 2) \<and>
   (0::real) \<le> 1 / 2 \<and> (1 / 2 :: real) < 1 \<and>
   draw_alias example_random ([1, 0], [1 / 2, 1]) ([10, 20], [1, 3]) None 0 = (Inr 20, 2)"
  using draw_alias_in_range [where self = "([1, 0], [1 / 2, 1])" and n = 2
      and nbs = "([10, 20], [1, 3])" and rnd = example_random and seed = None and g = 0
      and ?r1.0 = "1 / 2" and ?g1.0 = 1 and ?r2.0 = "1 / 3" and ?g2.0 = 2]
  by (simp add: AliasProb_alias_def AliasProb_probs_def dst_id_def example_random_def py_int_def)

section \<open>A seeded draw does not depend on the generator's state\<close>

lemma returned_path_append:
  "returned_path (RandomPath_append rnd self nbs alias_prob seed h g) =
     (case fst (draw_alias rnd alias_prob nbs seed g) of
        Inl e \<Rightarrow> Inl e
      | Inr v \<Rightarrow>
          Inr (if length (h ! self) = 2 \<and> h ! self ! 0 < 0 then [h ! self ! 1, v]
               else h ! self @ [v]))"
  by (auto simp: RandomPath_append_def returned_path_def new_list_def Let_def nth_append
      split: sum.split)

text \<open>
  C9: with a seed \<open>S\<close>, \<open>draw_alias\<close> reseeds the generator before its first draw, so
  its result (and the state it leaves) is the same whatever state the generator was
  in: two runs on the same table, neighbors and seed return the same node id. Hence
  two runs of \<open>RandomPath.append\<close> with that seed, on paths of equal content, return
  paths of equal content, whatever the stores and the generator states are.
\<close>

theorem seeded_draw_deterministic:
  "draw_alias rnd self nbs (Some S) g = draw_alias rnd self nbs (Some S) g' \<and>
   (h ! path = h' ! path' \<longrightarrow>
      returned_path (RandomPath_append rnd path nbs self (Some S) h g) =
      returned_path (RandomPath_append rnd path' nbs self (Some S) h' g'))"
proof -
  have draw: "draw_alias rnd self nbs (Some S) g = draw_alias rnd self nbs (Some S) g'"
    by (simp add: draw_alias_def)
  show ?thesis
  proof (intro conjI impI)
    show "draw_alias rnd self nbs (Some S) g = draw_alias rnd self nbs (Some S) g'"
      by (rule draw)
  next
    assume same: "h ! path = h' ! path'"
    show "returned_path (RandomPath_append rnd path nbs self (Some S) h g) =
          returned_path (RandomPath_append rnd path' nbs self (Some S) h' g')"
      unfolding returned_path_append same draw by (rule refl)
  qed
qed

theorem seeded_draw_deterministic_witness:
  "[ [- 1, 5 :: int] ] ! 0 = [ [7], [- 1, 5 :: int] ] ! 1 \<and>
   draw_alias example_random ([1, 0], [1 / 2, 1]) ([10, 20], [1, 3]) (Some 5) 0 = (Inr 10, 7) \<and>
   draw_alias example_random ([1, 0], [1 / 2, 1]) ([10, 20], [1, 3]) (Some 5) 3 = (Inr 10, 7) \<and>
   returned_path (RandomPath_append example_random 0 ([10, 20], [1, 3]) ([1, 0], [1 / 2, 1])
      (Some 5) [ [- 1, 5] ] 0) = Inr [5, 10] \<and>
   returned_path (RandomPath_append example_random 1 ([10, 20], [1, 3]) ([1, 0], [1 / 2, 1])
      (Some 5) [ [7], [- 1, 5] ] 3) = Inr [5, 10]"
  using seeded_draw_deterministic [where rnd = example_random and self = "([1, 0], [1 / 2, 1])"
      and nbs = "([10, 20], [1, 3])" and S = 5 and g = 0 and g' = 3
      and h = "[ [- 1, 5] ]" and path = 0 and h' = "[ [7], [- 1, 5] ]" and path' = 1]
  by (simp add: RandomPath_append_def returned_path_def new_list_def draw_alias_def
      subscript_def AliasProb_alias_def AliasProb_probs_def dst_id_def example_random_def
      py_int_def)

section \<open>One step of a path\<close>

text \<open>
  C3: when the draw returns \<open>next_vertex\<close>, \<open>RandomPath.append\<close> returns a list
  object that did not exist before the call. Its content is \<open>[path[1], next_vertex]\<close>
  when the path of \<open>self\<close> has two entries and the first is negative, and the path of
  \<open>self\<close> with \<open>next_vertex\<close> appended otherwise. Every list that existed before the
  call, the path of \<open>self\<close> among them, is left as it was.
\<close>

theorem RandomPath_append_path:
  assumes "self < length h"
    and "fst (draw_alias rnd alias_prob dst_neighbors seed g) = Inr next_vertex"
  shows "\<exists>a h' g'.
           RandomPath_append rnd self dst_neighbors alias_prob seed h g = (Inr a, h', g') \<and>
           length h \<le> a \<and> a < length h' \<and> a \<noteq> self \<and> h' ! self = h ! self \<and>
           h' ! a = (if length (h ! self) = 2 \<and> h ! self ! 0 < 0
                     then [h ! self ! 1, next_vertex]
                     else h ! self @ [next_vertex]) \<and>
           (\<forall>b<length h. h' ! b = h ! b)"
  using assms
  by (simp add: RandomPath_append_def new_list_def Let_def nth_append)

theorem RandomPath_append_path_witness:
  "(0::nat) < length [ [- 1, 5 :: int] ] \<and>
   fst (draw_alias example_random ([1, 0], [1 / 2, 1]) ([10, 20], [1, 3]) None 0) = Inr 20 \<and>
   RandomPath_append example_random 0 ([10, 20], [1, 3]) ([1, 0], [1 / 2, 1]) None [ [- 1, 5] ] 0
     = (Inr 2, [ [- 1, 5], [- 1, 5], [5, 20] ], 2)"
  using RandomPath_append_path [where self = 0 and h = "[ [- 1, 5] ]" and rnd = example_random
      and alias_prob = "([1, 0], [1 / 2, 1])" and dst_neighbors = "([10, 20], [1, 3])"
      and seed = None and g = 0 and next_vertex = 20]
  by (simp add: RandomPath_append_def new_list_def draw_alias_def subscript_def
      AliasProb_alias_def AliasProb_probs_def dst_id_def example_random_def py_int_def)

section \<open>Round trips\<close>

lemma loads_b64_serialize:
  assumes "codec_ok lib"
  shows "\<exists>s. serialize lib v = Inr s \<and> loads_b64 lib s = Inr v"
proof -
  from assms obtain s where s: "bytes_decode lib (b64encode lib (pickle_dumps lib v)) = Inr s"
    "str_encode lib s = b64encode lib (pickle_dumps lib v)"
    unfolding codec_ok_def by blast
  from assms have "b64decode lib (b64encode lib (pickle_dumps lib v)) = Inr (pickle_dumps lib v)"
    and "pickle_loads lib (pickle_dumps lib v) = Inr v"
    unfolding codec_ok_def by blast+
  with s show ?thesis by (simp add: serialize_def loads_b64_def)
qed

lemma two_columns_DataFrame:
  assumes "length xs = length ys" and "c0 \<noteq> c1"
  shows "\<exists>f. DataFrame [(c0, IntCol xs), (c1, FloatCol ys)] = Inr f \<and>
             two_columns f c0 c1 = Inr (xs, ys)"
  using assms by (simp add: DataFrame_def two_columns_def frame_getitem_def)

lemma example_codec_ok: "codec_ok example_codec"
  by (simp add: codec_ok_def example_codec_def)

text \<open>
  C4, as the code has it: when the library round-trips (\<open>codec_ok\<close>), constructing a
  \<open>Neighbors\<close>, an \<open>AliasProb\<close> or a \<open>RandomPath\<close> from the text that \<open>serialize\<close>
  returned gives back the same data. A \<open>Neighbors\<close> whose two lists have one length
  is given back by the constructor from the frame of \<open>as_pandas\<close>. An \<open>AliasProb\<close>
  is given back by its constructor from a frame with the columns \<open>alias\<close> and
  \<open>probs\<close>; the class has no method that builds this frame, and \<open>RandomPath\<close> has no
  row form at all.
\<close>

theorem round_trips:
  assumes "codec_ok lib" and "codec_ok plib"
  shows "(\<exists>s. serialize lib v = Inr s \<and> Neighbors_init lib (Str s) = Inr v) \<and>
         (\<exists>s. serialize lib v = Inr s \<and> AliasProb_init lib (Str s) = Inr v) \<and>
         (\<exists>s. serialize plib p = Inr s \<and> RandomPath_init plib (PathStr s) = Inr p) \<and>
         (pair_lengths_agree v \<longrightarrow>
            (\<exists>f. as_pandas (NeighborsObj v) = Inr f \<and> Neighbors_init lib (Frame f) = Inr v) \<and>
            (\<exists>f. DataFrame [(''alias'', IntCol (fst v)), (''probs'', FloatCol (snd v))] = Inr f \<and>
                 AliasProb_init lib (Frame f) = Inr v))"
proof -
  have frames: "(\<exists>f. as_pandas (NeighborsObj v) = Inr f \<and> Neighbors_init lib (Frame f) = Inr v) \<and>
      (\<exists>f. DataFrame [(''alias'', IntCol (fst v)), (''probs'', FloatCol (snd v))] = Inr f \<and>
           AliasProb_init lib (Frame f) = Inr v)"
    if "pair_lengths_agree v"
  proof -
    from that have len: "length (fst v) = length (snd v)" by (simp add: pair_lengths_agree_def)
    have "''dst'' \<noteq> ''weight''" "''alias'' \<noteq> ''probs''" by simp_all
    from two_columns_DataFrame [OF len this(1)] two_columns_DataFrame [OF len this(2)]
    show ?thesis by (simp add: Neighbors_init_def AliasProb_init_def)
  qed
  from loads_b64_serialize [OF assms(1), of v] loads_b64_serialize [OF assms(2), of p] frames
  show ?thesis
    by (simp add: Neighbors_init_def AliasProb_init_def RandomPath_init_def)
qed

theorem round_trips_witness:
  "codec_ok (example_codec :: (int list \<times> real list, _, _) codec) \<and>
   codec_ok (example_codec :: (int list, _, _) codec) \<and>
   pair_lengths_agree ([10, 20], [1, 3]) \<and>
   (\<exists>s. serialize example_codec ([10, 20 :: int], [1, 3 :: real]) = Inr s \<and>
        Neighbors_init example_codec (Str s) = Inr ([10, 20], [1, 3])) \<and>
   (\<exists>s. serialize example_codec ([10, 20 :: int], [1, 3 :: real]) = Inr s \<and>
        AliasProb_init example_codec (Str s) = Inr ([10, 20], [1, 3])) \<and>
   (\<exists>s. serialize example_codec [- 1, 5 :: int] = Inr s \<and>
        RandomPath_init example_codec (PathStr s) = Inr [- 1, 5]) \<and>
   (\<exists>f. as_pandas (NeighborsObj ([10, 20], [1, 3])) = Inr f \<and>
        Neighbors_init (example_codec :: (int list \<times> real list, _, _) codec) (Frame f)
          = Inr ([10, 20], [1, 3])) \<and>
   (\<exists>f. DataFrame [(''alias'', IntCol [10, 20]), (''probs'', FloatCol [1, 3])] = Inr f \<and>
        AliasProb_init (example_codec :: (int list \<times> real list, _, _) codec) (Frame f)
          = Inr ([10, 20], [1, 3]))"
proof -
  have agree: "pair_lengths_agree ([10, 20], [1, 3])"
    by (simp add: pair_lengths_agree_def)
  from round_trips [OF example_codec_ok example_codec_ok, of "([10, 20], [1, 3])" "[- 1, 5]"]
    agree
  show ?thesis by (simp add: example_codec_ok)
qed

text \<open>
  The claim as stated, with a round trip through rows for all three types, fails:
  \<open>as_pandas\<close> does not exist for a \<open>RandomPath\<close> or an \<open>AliasProb\<close>, and for a
  \<open>Neighbors\<close> whose lists differ in length the frame cannot be built.
\<close>

theorem as_pandas_missing:
  "as_pandas (RandomPathObj [- 1, 5]) = Inl (AttributeError ''as_pandas'') \<and>
   as_pandas (AliasProbObj ([1, 0], [1 / 2, 1])) = Inl (AttributeError ''as_pandas'') \<and>
   as_pandas (NeighborsObj ([1, 2], [1 / 2]))
     = Inl (ValueError All_arrays_must_be_of_the_same_length)"
  by (simp add: DataFrame_def)

section \<open>Construction without validation\<close>

text \<open>
  C10: the constructors check nothing. A tuple whose two lists differ in length becomes
  a \<open>Neighbors\<close> or an \<open>AliasProb\<close> as it is, a one-element list becomes a
  \<open>RandomPath\<close>, and for a \<open>str\<close> the constructors store whatever the decoding
  returns; no exception is raised, and the values break the length invariants.
\<close>

theorem constructors_do_not_validate:
  "Neighbors_init lib (Tuple ([1, 2], [1 / 2])) = Inr ([1, 2], [1 / 2]) \<and>
   \<not> pair_lengths_agree ([1, 2], [1 / 2]) \<and>
   AliasProb_init lib (Tuple ([0, 0, 0], [1])) = Inr ([0, 0, 0], [1]) \<and>
   \<not> pair_lengths_agree ([0, 0, 0], [1]) \<and>
   RandomPath_init plib (PathList [5]) = Inr [5] \<and>
   \<not> path_length_ok [5] \<and>
   Neighbors_init lib (Str s) = loads_b64 lib s \<and>
   AliasProb_init lib (Str s) = loads_b64 lib s \<and>
   RandomPath_init plib (PathStr s') = loads_b64 plib s' \<and>
   Neighbors_init example_codec (Str ([1, 2], [1 / 2])) = Inr ([1, 2], [1 / 2])"
  by (simp add: Neighbors_init_def AliasProb_init_def RandomPath_init_def
      pair_lengths_agree_def path_length_ok_def loads_b64_def example_codec_def)

end
